theory Spec2Isabelle
  imports Main "HOL-Library.AList"
begin

section \<open>Python values\<close>

text \<open>
  The module \<^verbatim>\<open>plugins/modules/kerberos_keys.py\<close> works on Python dictionaries
  (\<^verbatim>\<open>self.params\<close>, the payload parameters, the serialised resource, the result).
  A dictionary is kept as the list of its items in insertion order, which is what
  \<^verbatim>\<open>items()\<close> iterates over; \<^verbatim>\<open>d[k]\<close> is \<open>map_of d k\<close> and
  \<^verbatim>\<open>d[k] = v\<close> is \<open>AList.update k v d\<close> (replace in place, or append).
\<close>

datatype pyval =
    PNone
  | PBool bool
  | PInt int
  | PStr string
  | PDict "(string \<times> pyval) list"

type_synonym pydict = "(string \<times> pyval) list"

text \<open>
  Python's \<^verbatim>\<open>==\<close> on these values. Two dictionaries are equal when they have the same
  keys with equal values, in whatever order the items are listed; \<^verbatim>\<open>True\<close> and
  \<^verbatim>\<open>False\<close> equal the integers 1 and 0; values of different kinds are otherwise
  unequal.
\<close>

fun py_eq :: "pyval \<Rightarrow> pyval \<Rightarrow> bool" where
  "py_eq PNone w = (w = PNone)"
| "py_eq (PBool a) w =
     (case w of PBool b \<Rightarrow> a = b | PInt j \<Rightarrow> j = (if a then 1 else 0) | _ \<Rightarrow> False)"
| "py_eq (PInt i) w =
     (case w of PInt j \<Rightarrow> i = j | PBool b \<Rightarrow> i = (if b then 1 else 0) | _ \<Rightarrow> False)"
| "py_eq (PStr s) w = (w = PStr s)"
| "py_eq (PDict xs) w =
     (case w of
        PDict ys \<Rightarrow>
          list_all (\<lambda>(k, v). case map_of ys k of None \<Rightarrow> False | Some u \<Rightarrow> py_eq v u) xs
          \<and> list_all (\<lambda>(k, u). map_of xs k \<noteq> None) ys
      | _ \<Rightarrow> False)"

definition dict_get :: "pydict \<Rightarrow> string \<Rightarrow> pyval" where
  \<comment> \<open>\<^verbatim>\<open>d.get(k)\<close>: the value, or \<^verbatim>\<open>None\<close> for a missing key.\<close>
  "dict_get d k = (case map_of d k of None \<Rightarrow> PNone | Some v \<Rightarrow> v)"

section \<open>The collaborators: resource, exceptions, client\<close>

text \<open>
  Modelled from the spec: the class \<^verbatim>\<open>KerberosKey\<close> is imported from the client
  library (\<^verbatim>\<open>from keys import KerberosKey, KerberosApi\<close>). Its fields are the ones
  the module documents under \<^verbatim>\<open>RETURN\<close> (and the spec under "Existing Resource"):
  \<^verbatim>\<open>algorithm, comment, domain, id, principal, tags, uploaded_at, version\<close>, each of
  them optional. The field \<^verbatim>\<open>id\<close> is called \<open>key_id\<close> here.
\<close>

record KerberosKey =
  algorithm :: pyval
  comment :: pyval
  domain :: pyval
  key_id :: pyval
  principal :: pyval
  tags :: pyval
  uploaded_at :: pyval
  version :: pyval

definition key_fields :: "KerberosKey \<Rightarrow> pydict" where
  "key_fields r =
     [(''algorithm'', algorithm r), (''comment'', comment r), (''domain'', domain r),
      (''id'', key_id r), (''principal'', principal r), (''tags'', tags r),
      (''uploaded_at'', uploaded_at r), (''version'', version r)]"

definition model_dump :: "KerberosKey \<Rightarrow> pydict" where
  \<comment> \<open>Modelled from the spec: \<^verbatim>\<open>model_dump(by_alias=True, exclude_none=True)\<close>, the
      mapping "restricted to fields that have non-absent values".\<close>
  "model_dump r = [(k, v) \<leftarrow> key_fields r. v \<noteq> PNone]"

definition from_dict :: "pydict \<Rightarrow> KerberosKey" where
  \<comment> \<open>Modelled from the spec: \<^verbatim>\<open>KerberosKey.from_dict\<close>, the resource object that
      carries the fields of the mapping.\<close>
  "from_dict d =
     \<lparr>algorithm = dict_get d ''algorithm'', comment = dict_get d ''comment'',
      domain = dict_get d ''domain'', key_id = dict_get d ''id'',
      principal = dict_get d ''principal'', tags = dict_get d ''tags'',
      uploaded_at = dict_get d ''uploaded_at'', version = dict_get d ''version''\<rparr>"

text \<open>
  The exceptions the module can see. \<^verbatim>\<open>ApiException\<close> carries status, reason and
  body; \<^verbatim>\<open>NotFoundException\<close> is its subclass in the client library, so the handler
  \<^verbatim>\<open>except ApiException\<close> of \<^verbatim>\<open>run_command\<close> catches both.
\<close>

datatype exn =
    ApiException int string string
  | NotFoundException int string string
  | KeyError string
  | AttributeError string

text \<open>
  An f-string is kept as a constructor applied to the interpolated values:
  \<open>Name_eq v\<close> is \<^verbatim>\<open>f"name=='{v}'"\<close>, \<open>Found_multiple rs\<close> is
  \<^verbatim>\<open>f"Found multiple Kerberos: {rs}"\<close> and \<open>Failed_to_execute s r b\<close> is
  \<^verbatim>\<open>f"Failed to execute command: {s} {r} {b}"\<close>.
\<close>

datatype filter_expr = Name_eq pyval

datatype fail_msg =
    Found_multiple "KerberosKey list"
  | Failed_to_execute int string string

text \<open>
  The remote calls of \<^verbatim>\<open>KerberosApi(self.client)\<close>. The client answers from five
  response functions (any behaviour of the remote service) and records each call it
  receives, in order.
\<close>

datatype call =
    Read_call pyval
  | List_call filter_expr
  | Create_call KerberosKey
  | Update_call pyval KerberosKey
  | Delete_call pyval

record client =
  read_resp :: "pyval \<Rightarrow> exn + KerberosKey"
  list_resp :: "filter_expr \<Rightarrow> exn + KerberosKey list"
  create_resp :: "KerberosKey \<Rightarrow> exn + KerberosKey"
  update_resp :: "pyval \<Rightarrow> KerberosKey \<Rightarrow> exn + KerberosKey"
  delete_resp :: "pyval \<Rightarrow> exn + unit"
  calls :: "call list"

definition record_call :: "call \<Rightarrow> client \<Rightarrow> client" where
  "record_call c cl = cl\<lparr>calls := calls cl @ [c]\<rparr>"

fun is_write :: "call \<Rightarrow> bool" where
  "is_write (Read_call i) = False"
| "is_write (List_call f) = False"
| "is_write (Create_call b) = True"
| "is_write (Update_call i b) = True"
| "is_write (Delete_call i) = True"

section \<open>The module object\<close>

text \<open>
  \<^verbatim>\<open>exit_json\<close> and \<^verbatim>\<open>fail_json\<close> end the process, and an exception that nothing
  catches does too: these are the three ways an invocation stops.
\<close>

datatype stop =
    Raise exn
  | Exit_json pydict
  | Fail_json fail_msg

record KerberosModule =
  params :: pydict
  check_mode :: bool
  client :: client
  payload_params :: pydict
  payload :: KerberosKey
  existing :: "KerberosKey option"

definition exclude :: "string list" where
  "exclude = [''state'', ''csp_url'', ''api_key'', ''id'']"

definition init :: "pydict \<Rightarrow> bool \<Rightarrow> client \<Rightarrow> KerberosModule" where
  \<comment> \<open>\<^verbatim>\<open>KerberosModule.__init__\<close>\<close>
  "init ps cm cl =
     (let pp = [(k, v) \<leftarrow> ps. v \<noteq> PNone \<and> k \<notin> set exclude]
      in \<lparr>params = ps, check_mode = cm, client = cl,
          payload_params = pp, payload = from_dict pp, existing = None\<rparr>)"

definition api_read :: "pyval \<Rightarrow> KerberosModule \<Rightarrow> (exn + KerberosKey) \<times> KerberosModule" where
  "api_read i m = (read_resp (client m) i, m\<lparr>client := record_call (Read_call i) (client m)\<rparr>)"

definition api_list :: "filter_expr \<Rightarrow> KerberosModule \<Rightarrow> (exn + KerberosKey list) \<times> KerberosModule" where
  "api_list f m = (list_resp (client m) f, m\<lparr>client := record_call (List_call f) (client m)\<rparr>)"

definition api_create :: "KerberosKey \<Rightarrow> KerberosModule \<Rightarrow> (exn + KerberosKey) \<times> KerberosModule" where
  "api_create b m =
     (create_resp (client m) b, m\<lparr>client := record_call (Create_call b) (client m)\<rparr>)"

definition api_update ::
  "pyval \<Rightarrow> KerberosKey \<Rightarrow> KerberosModule \<Rightarrow> (exn + KerberosKey) \<times> KerberosModule" where
  "api_update i b m =
     (update_resp (client m) i b, m\<lparr>client := record_call (Update_call i b) (client m)\<rparr>)"

definition api_delete :: "pyval \<Rightarrow> KerberosModule \<Rightarrow> (exn + unit) \<times> KerberosModule" where
  "api_delete i m =
     (delete_resp (client m) i, m\<lparr>client := record_call (Delete_call i) (client m)\<rparr>)"

definition is_changed :: "pydict \<Rightarrow> pydict \<Rightarrow> bool" where
  \<comment> \<open>Modelled from the spec: \<^verbatim>\<open>is_changed\<close> is inherited from
      \<^verbatim>\<open>BloxoneAnsibleModule\<close> (plugins/module\_utils/modules.py), which is not among
      the sources. The spec: true iff some key of the payload has a value that differs
      from the serialised existing mapping's value for that key, or is absent from it.
      Values differ when Python's \<^verbatim>\<open>==\<close> says so.\<close>
  "is_changed existing_dump pl =
     list_ex (\<lambda>(k, v). case map_of existing_dump k of None \<Rightarrow> True | Some w \<Rightarrow> \<not> py_eq w v) pl"

definition payload_changed :: "KerberosModule \<Rightarrow> bool" where
  "payload_changed m =
     (case existing m of
        None \<Rightarrow> True
      | Some e \<Rightarrow> is_changed (model_dump e) (payload_params m))"

definition find :: "KerberosModule \<Rightarrow> (stop + KerberosKey option) \<times> KerberosModule" where
  "find m =
     (case map_of (params m) ''id'' of
        None \<Rightarrow> (Inl (Raise (KeyError ''id'')), m)
      | Some i \<Rightarrow>
          if i \<noteq> PNone then
            (case api_read i m of
               (Inr r, m') \<Rightarrow> (Inr (Some r), m')
             | (Inl (NotFoundException s r b), m') \<Rightarrow>
                 (case map_of (params m') ''state'' of
                    None \<Rightarrow> (Inl (Raise (KeyError ''state'')), m')
                  | Some st \<Rightarrow>
                      if st = PStr ''absent'' then (Inr None, m')
                      else (Inl (Raise (NotFoundException s r b)), m'))
             | (Inl e, m') \<Rightarrow> (Inl (Raise e), m'))
          else
            (case map_of (params m) ''name'' of
               None \<Rightarrow> (Inl (Raise (KeyError ''name'')), m)
             | Some n \<Rightarrow>
                 (case api_list (Name_eq n) m of
                    (Inl e, m') \<Rightarrow> (Inl (Raise e), m')
                  | (Inr results, m') \<Rightarrow>
                      if length results = 1 then (Inr (Some (results ! 0)), m')
                      else if length results > 1 then
                        (Inl (Fail_json (Found_multiple results)), m')
                      else if length results = 0 then (Inr None, m')
                      else (Inr None, m'))))"

definition create :: "KerberosModule \<Rightarrow> (stop + pydict option) \<times> KerberosModule" where
  "create m =
     (if check_mode m then (Inr None, m)
      else
        (case api_create (payload m) m of
           (Inl e, m') \<Rightarrow> (Inl (Raise e), m')
         | (Inr r, m') \<Rightarrow> (Inr (Some (model_dump r)), m')))"

definition update :: "KerberosModule \<Rightarrow> (stop + pydict option) \<times> KerberosModule" where
  "update m =
     (if check_mode m then (Inr None, m)
      else
        (case existing m of
           None \<Rightarrow> (Inl (Raise (AttributeError ''id'')), m)
         | Some e \<Rightarrow>
             (case api_update (key_id e) (payload m) m of
                (Inl x, m') \<Rightarrow> (Inl (Raise x), m')
              | (Inr r, m') \<Rightarrow> (Inr (Some (model_dump r)), m'))))"

definition delete :: "KerberosModule \<Rightarrow> (stop + unit) \<times> KerberosModule" where
  "delete m =
     (if check_mode m then (Inr (), m)
      else
        (case existing m of
           None \<Rightarrow> (Inl (Raise (AttributeError ''id'')), m)
         | Some e \<Rightarrow>
             (case api_delete (key_id e) m of
                (Inl x, m') \<Rightarrow> (Inl (Raise x), m')
              | (Inr u, m') \<Rightarrow> (Inr (), m'))))"

definition item_val :: "pydict option \<Rightarrow> pyval" where
  \<comment> \<open>\<^verbatim>\<open>item\<close> as a value: a dictionary, or \<^verbatim>\<open>None\<close> (what \<^verbatim>\<open>create\<close> and
      \<^verbatim>\<open>update\<close> return in check mode).\<close>
  "item_val item = (case item of None \<Rightarrow> PNone | Some d \<Rightarrow> PDict d)"

definition report ::
  "pydict option \<Rightarrow> pydict \<Rightarrow> KerberosModule \<Rightarrow> (stop + pydict) \<times> KerberosModule" where
  \<comment> \<open>lines 213 to 222 of \<^verbatim>\<open>run_command\<close>: the check-mode exit, then diff, object, id.\<close>
  "report item result m =
     (if check_mode m then (Inl (Exit_json result), m)
      else
        (let result1 = AList.update ''diff''
               (PDict [(''before'', case existing m of
                                      Some e \<Rightarrow> PDict (model_dump e)
                                    | None \<Rightarrow> PDict []),
                       (''after'', item_val item)]) result;
             result2 = AList.update ''object'' (item_val item) result1;
             result3 = AList.update ''id''
               (case existing m of
                  Some e \<Rightarrow> key_id e
                | None \<Rightarrow>
                    (case item of
                       None \<Rightarrow> PNone
                     | Some d \<Rightarrow>
                         if d \<noteq> [] \<and> map_of d ''id'' \<noteq> None then dict_get d ''id''
                         else PNone)) result2
         in (Inr result3, m)))"

definition try_body :: "KerberosModule \<Rightarrow> (stop + pydict) \<times> KerberosModule" where
  \<comment> \<open>the \<^verbatim>\<open>try\<close> block of \<^verbatim>\<open>run_command\<close>, lines 197 to 222\<close>
  "try_body m =
     (let result = [(''changed'', PBool False), (''object'', PDict []), (''id'', PNone)]
      in case find m of
           (Inl s, m1) \<Rightarrow> (Inl s, m1)
         | (Inr ex, m1) \<Rightarrow>
             (let m2 = m1\<lparr>existing := ex\<rparr>
              in case map_of (params m2) ''state'' of
                   None \<Rightarrow> (Inl (Raise (KeyError ''state'')), m2)
                 | Some st \<Rightarrow>
                     if st = PStr ''present'' \<and> existing m2 = None then
                       (case create m2 of
                          (Inl s, m3) \<Rightarrow> (Inl s, m3)
                        | (Inr item, m3) \<Rightarrow>
                            report item
                              (AList.update ''msg'' (PStr ''Kerberos created'')
                                (AList.update ''changed'' (PBool True) result)) m3)
                     else if st = PStr ''present'' \<and> existing m2 \<noteq> None then
                       (if payload_changed m2 then
                          (case update m2 of
                             (Inl s, m3) \<Rightarrow> (Inl s, m3)
                           | (Inr item, m3) \<Rightarrow>
                               report item
                                 (AList.update ''msg'' (PStr ''Kerberos updated'')
                                   (AList.update ''changed'' (PBool True) result)) m3)
                        else report (Some []) result m2)
                     else if st = PStr ''absent'' \<and> existing m2 \<noteq> None then
                       (case delete m2 of
                          (Inl s, m3) \<Rightarrow> (Inl s, m3)
                        | (Inr u, m3) \<Rightarrow>
                            report (Some [])
                              (AList.update ''msg'' (PStr ''Kerberos deleted'')
                                (AList.update ''changed'' (PBool True) result)) m3)
                     else report (Some []) result m2))"

definition run_command :: "KerberosModule \<Rightarrow> stop \<times> KerberosModule" where
  "run_command m =
     (case try_body m of
        (Inl (Raise (ApiException s r b)), m') \<Rightarrow> (Fail_json (Failed_to_execute s r b), m')
      | (Inl (Raise (NotFoundException s r b)), m') \<Rightarrow>
          (Fail_json (Failed_to_execute s r b), m')
      | (Inl s, m') \<Rightarrow> (s, m')
      | (Inr result, m') \<Rightarrow> (Exit_json result, m'))"

section \<open>The entry point\<close>

text \<open>
  \<^verbatim>\<open>main\<close> declares the options \<^verbatim>\<open>id\<close>, \<^verbatim>\<open>state\<close> (default
  \<^verbatim>\<open>present\<close>), \<^verbatim>\<open>comment\<close> and \<^verbatim>\<open>tags\<close>, builds the module and runs it.

  Modelled from the spec: the base class \<^verbatim>\<open>BloxoneAnsibleModule\<close> is not among the
  sources. It adds the connection options (the ones \<^verbatim>\<open>__init__\<close> excludes by name,
  \<^verbatim>\<open>csp_url\<close> and \<^verbatim>\<open>api_key\<close>) and fills \<^verbatim>\<open>self.params\<close> with one entry per
  declared option: the task's value, or the option's default when the task gives none.
\<close>

definition module_args :: pydict where
  "module_args = [(''id'', PNone), (''state'', PStr ''present''), (''comment'', PNone), (''tags'', PNone)]"

definition common_args :: pydict where
  "common_args = [(''csp_url'', PNone), (''api_key'', PNone)]"

definition load_params :: "pydict \<Rightarrow> pydict" where
  "load_params task =
     map (\<lambda>(k, d). (k, case map_of task k of None \<Rightarrow> d | Some v \<Rightarrow> if v = PNone then d else v))
       (common_args @ module_args)"

definition main :: "pydict \<Rightarrow> bool \<Rightarrow> client \<Rightarrow> stop \<times> KerberosModule" where
  "main task cm cl = run_command (init (load_params task) cm cl)"


section \<open>The transition table of the specification\<close>

text \<open>
  The table of section 4.4 of the specification, row by row, and the remote write each
  action stands for.
\<close>

datatype action = Create | Update | Delete | No_op

definition transition :: "bool \<Rightarrow> bool \<Rightarrow> bool \<Rightarrow> action" where
  "transition existing_present target_present drift =
     (if \<not> existing_present \<and> target_present then Create
      else if existing_present \<and> target_present \<and> \<not> drift then No_op
      else if existing_present \<and> target_present \<and> drift then Update
      else if \<not> existing_present \<and> \<not> target_present then No_op
      else Delete)"

definition action_calls :: "action \<Rightarrow> KerberosKey option \<Rightarrow> KerberosKey \<Rightarrow> call list" where
  "action_calls a ex pl =
     (case a of
        Create \<Rightarrow> [Create_call pl]
      | Update \<Rightarrow> (case ex of None \<Rightarrow> [] | Some e \<Rightarrow> [Update_call (key_id e) pl])
      | Delete \<Rightarrow> (case ex of None \<Rightarrow> [] | Some e \<Rightarrow> [Delete_call (key_id e)])
      | No_op \<Rightarrow> [])"

text \<open>The error, if any, with which the client answers a call.\<close>

fun call_error :: "client \<Rightarrow> call \<Rightarrow> exn option" where
  "call_error cl (Read_call i) = (case read_resp cl i of Inl e \<Rightarrow> Some e | Inr r \<Rightarrow> None)"
| "call_error cl (List_call f) = (case list_resp cl f of Inl e \<Rightarrow> Some e | Inr r \<Rightarrow> None)"
| "call_error cl (Create_call b) = (case create_resp cl b of Inl e \<Rightarrow> Some e | Inr r \<Rightarrow> None)"
| "call_error cl (Update_call i b) = (case update_resp cl i b of Inl e \<Rightarrow> Some e | Inr r \<Rightarrow> None)"
| "call_error cl (Delete_call i) = (case delete_resp cl i of Inl e \<Rightarrow> Some e | Inr r \<Rightarrow> None)"


text \<open>A well-formed value: a dictionary lists each key once, at every depth.\<close>

fun wf_val :: "pyval \<Rightarrow> bool" where
  "wf_val (PDict xs) = (distinct (map fst xs) \<and> list_all (\<lambda>(k, v). wf_val v) xs)"
| "wf_val v = True"

section \<open>Auxiliary notions for the proofs\<close>

text \<open>
  \<open>add_calls cs m\<close> is the module after the client has recorded the calls \<open>cs\<close>;
  \<open>surfaced\<close> is the handler \<^verbatim>\<open>except ApiException\<close>; \<open>planned\<close> names the branch
  that \<^verbatim>\<open>run_command\<close> takes and \<open>action_msg\<close> the message it sets there; the
  three result shapes are the dictionaries \<^verbatim>\<open>run_command\<close> can hand to
  \<^verbatim>\<open>exit_json\<close>.
\<close>

definition add_calls :: "call list \<Rightarrow> KerberosModule \<Rightarrow> KerberosModule" where
  "add_calls cs m = m\<lparr>client := (client m)\<lparr>calls := calls (client m) @ cs\<rparr>\<rparr>"

definition surfaced :: "stop \<Rightarrow> stop" where
  "surfaced s =
     (case s of
        Raise (ApiException st r b) \<Rightarrow> Fail_json (Failed_to_execute st r b)
      | Raise (NotFoundException st r b) \<Rightarrow> Fail_json (Failed_to_execute st r b)
      | _ \<Rightarrow> s)"

definition planned :: "pyval \<Rightarrow> KerberosKey option \<Rightarrow> KerberosModule \<Rightarrow> action" where
  "planned st ex m =
     (if st = PStr ''present'' \<and> ex = None then Create
      else if st = PStr ''present'' \<and> ex \<noteq> None then
        (if payload_changed (m\<lparr>existing := ex\<rparr>) then Update else No_op)
      else if st = PStr ''absent'' \<and> ex \<noteq> None then Delete
      else No_op)"

definition action_msg :: "action \<Rightarrow> string option" where
  "action_msg a =
     (case a of
        Create \<Rightarrow> Some ''Kerberos created''
      | Update \<Rightarrow> Some ''Kerberos updated''
      | Delete \<Rightarrow> Some ''Kerberos deleted''
      | No_op \<Rightarrow> None)"

definition defaults :: pydict where
  "defaults = [(''changed'', PBool False), (''object'', PDict []), (''id'', PNone)]"

definition changed_result :: "string \<Rightarrow> pydict" where
  "changed_result msg =
     [(''changed'', PBool True), (''object'', PDict []), (''id'', PNone), (''msg'', PStr msg)]"

definition full_result :: "bool \<Rightarrow> string option \<Rightarrow> pyval \<Rightarrow> pydict \<Rightarrow> pydict \<Rightarrow> pydict" where
  "full_result ch msg i before after =
     [(''changed'', PBool ch), (''object'', PDict after), (''id'', i)]
     @ (case msg of None \<Rightarrow> [] | Some s \<Rightarrow> [(''msg'', PStr s)])
     @ [(''diff'', PDict [(''before'', PDict before), (''after'', PDict after)])]"

section \<open>Example inputs\<close>

text \<open>
  A remote service that holds one Kerberos key and answers not-found for any other id, and
  declared inputs against it: the key's id with a new comment (\<open>task_new\<close>), with the
  comment the key already has (\<open>task_same\<close>), an id the remote does not know
  (\<open>task_gone\<close>) and no id at all (\<open>task_no_id\<close>). \<open>remote_failing\<close> answers every
  update with a server error; \<open>key_new\<close> is the key after the update of \<open>task_new\<close>.
  \<open>task_tags\<close> declares the tags that \<open>key_tagged\<close> already has, listed in another
  order.
\<close>

definition key_old :: KerberosKey where
  "key_old =
     \<lparr>algorithm = PStr ''aes256-cts-hmac-sha1-96'', comment = PStr ''old'',
      domain = PStr ''EXAMPLE.COM'', key_id = PStr ''keys/kerberos/k1'',
      principal = PStr ''DNS/ns1.example.com'', tags = PNone,
      uploaded_at = PStr ''2024-01-01T00:00:00Z'', version = PInt 1\<rparr>"

definition not_found :: exn where
  "not_found = NotFoundException 404 ''Not Found'' ''{}''"

definition remote :: "KerberosKey \<Rightarrow> client" where
  "remote k =
     \<lparr>read_resp = (\<lambda>i. if i = key_id k then Inr k else Inl not_found),
      list_resp = (\<lambda>f. Inr [k]),
      create_resp = (\<lambda>b. Inr (b\<lparr>key_id := PStr ''keys/kerberos/k2''\<rparr>)),
      update_resp = (\<lambda>i b. if i = key_id k then Inr (k\<lparr>comment := comment b\<rparr>) else Inl not_found),
      delete_resp = (\<lambda>i. if i = key_id k then Inr () else Inl not_found),
      calls = []\<rparr>"

definition task_new :: pydict where
  "task_new = [(''id'', PStr ''keys/kerberos/k1''), (''comment'', PStr ''new'')]"

definition module_new :: "bool \<Rightarrow> KerberosModule" where
  "module_new cm = init (load_params task_new) cm (remote key_old)"

definition task_gone :: "string \<Rightarrow> pydict" where
  "task_gone st = [(''id'', PStr ''keys/kerberos/k9''), (''state'', PStr st)]"

definition module_gone :: "string \<Rightarrow> KerberosModule" where
  "module_gone st = init (load_params (task_gone st)) False (remote key_old)"

definition task_same :: pydict where
  "task_same = [(''id'', PStr ''keys/kerberos/k1''), (''comment'', PStr ''old'')]"

definition module_same :: KerberosModule where
  "module_same = init (load_params task_same) False (remote key_old)"

definition remote_failing :: client where
  "remote_failing =
     (remote key_old)\<lparr>update_resp := (\<lambda>i b. Inl (ApiException 500 ''Internal Server Error'' ''{}''))\<rparr>"

definition module_failing :: KerberosModule where
  "module_failing = init (load_params task_new) False remote_failing"

definition task_no_id :: pydict where
  "task_no_id = [(''comment'', PStr ''new'')]"



definition task_tags :: pydict where
  "task_tags =
     [(''id'', PStr ''keys/kerberos/k1''),
      (''tags'', PDict [(''site'', PStr ''a''), (''owner'', PStr ''b'')])]"

definition key_tagged :: KerberosKey where
  "key_tagged = key_old\<lparr>tags := PDict [(''owner'', PStr ''b''), (''site'', PStr ''a'')]\<rparr>"

definition module_tags :: KerberosModule where
  "module_tags = init (load_params task_tags) False (remote key_tagged)"

section \<open>Basic facts about the model\<close>

lemma add_calls_simps [simp]:
  "params (add_calls cs m) = params m"
  "check_mode (add_calls cs m) = check_mode m"
  "payload_params (add_calls cs m) = payload_params m"
  "payload (add_calls cs m) = payload m"
  "existing (add_calls cs m) = existing m"
  "read_resp (client (add_calls cs m)) = read_resp (client m)"
  "list_resp (client (add_calls cs m)) = list_resp (client m)"
  "create_resp (client (add_calls cs m)) = create_resp (client m)"
  "update_resp (client (add_calls cs m)) = update_resp (client m)"
  "delete_resp (client (add_calls cs m)) = delete_resp (client m)"
  "calls (client (add_calls cs m)) = calls (client m) @ cs"
  by (simp_all add: add_calls_def)

lemma add_calls_Nil [simp]: "add_calls [] m = m"
  by (simp add: add_calls_def)

lemma add_calls_add_calls [simp]: "add_calls cs (add_calls ds m) = add_calls (ds @ cs) m"
  by (simp add: add_calls_def)

lemma add_calls_existing [simp]: "(add_calls cs m)\<lparr>existing := e\<rparr> = add_calls cs (m\<lparr>existing := e\<rparr>)"
  by (simp add: add_calls_def)

lemma api_read_eq: "api_read i m = (read_resp (client m) i, add_calls [Read_call i] m)"
  by (simp add: api_read_def add_calls_def record_call_def)

lemma api_list_eq: "api_list f m = (list_resp (client m) f, add_calls [List_call f] m)"
  by (simp add: api_list_def add_calls_def record_call_def)

lemma api_create_eq: "api_create b m = (create_resp (client m) b, add_calls [Create_call b] m)"
  by (simp add: api_create_def add_calls_def record_call_def)

lemma api_update_eq: "api_update i b m = (update_resp (client m) i b, add_calls [Update_call i b] m)"
  by (simp add: api_update_def add_calls_def record_call_def)

lemma api_delete_eq: "api_delete i m = (delete_resp (client m) i, add_calls [Delete_call i] m)"
  by (simp add: api_delete_def add_calls_def record_call_def)

lemma find_cases:
  assumes "find m = (x, m1)"
  shows "m1 = m \<or> (\<exists>i. m1 = add_calls [Read_call i] m) \<or> (\<exists>f. m1 = add_calls [List_call f] m)"
  using assms
  by (auto simp: find_def api_read_eq api_list_eq split: option.splits if_splits sum.splits exn.splits)

lemma find_no_write:
  assumes "find m = (x, m1)"
  shows "\<exists>cs. m1 = add_calls cs m \<and> filter is_write cs = [] \<and> length cs \<le> 1"
proof -
  from find_cases [OF assms] consider
      "m1 = add_calls [] m"
    | i where "m1 = add_calls [Read_call i] m"
    | f where "m1 = add_calls [List_call f] m"
    by auto
  then show ?thesis
  proof cases
    case 1
    then show ?thesis by (intro exI [of _ "[]"]) simp
  next
    case 2
    then show ?thesis by (intro exI [of _ "[Read_call i]"]) simp
  next
    case 3
    then show ?thesis by (intro exI [of _ "[List_call f]"]) simp
  qed
qed

lemma payload_changed_frame [simp]:
  "payload_changed (add_calls cs m) = payload_changed m"
  by (simp add: payload_changed_def split: option.splits)

lemma surfaced_simps [simp]:
  "surfaced (Exit_json res) = Exit_json res"
  "surfaced (Fail_json msg) = Fail_json msg"
  "surfaced (Raise (KeyError k)) = Raise (KeyError k)"
  "surfaced (Raise (AttributeError k)) = Raise (AttributeError k)"
  "surfaced (Raise (ApiException st r b)) = Fail_json (Failed_to_execute st r b)"
  "surfaced (Raise (NotFoundException st r b)) = Fail_json (Failed_to_execute st r b)"
  by (simp_all add: surfaced_def)

lemma run_command_surfaced:
  "run_command m =
     (case try_body m of (Inl s, m') \<Rightarrow> (surfaced s, m') | (Inr res, m') \<Rightarrow> (Exit_json res, m'))"
  by (simp add: run_command_def surfaced_def split: prod.splits sum.splits stop.splits exn.splits)

lemma run_find_fails:
  assumes "find m = (Inl s, m1)"
  shows "run_command m = (surfaced s, m1)"
  using assms by (simp add: run_command_surfaced try_body_def)

lemma find_keeps_params:
  assumes "find m = (x, m1)"
  shows "params m1 = params m \<and> check_mode m1 = check_mode m \<and> payload m1 = payload m
    \<and> payload_params m1 = payload_params m \<and> client m1 = (client m)\<lparr>calls := calls (client m1)\<rparr>"
  using find_cases [OF assms] by (auto simp: add_calls_def)

lemma run_no_state:
  assumes "find m = (Inr ex, m1)" and "map_of (params m) ''state'' = None"
  shows "run_command m = (Raise (KeyError ''state''), m1\<lparr>existing := ex\<rparr>)"
  using assms find_keeps_params [OF assms(1)]
  by (simp add: run_command_surfaced try_body_def Let_def)

lemma run_check_mode:
  assumes "find m = (Inr ex, m1)" and "map_of (params m) ''state'' = Some st" and "check_mode m"
  shows "run_command m =
    (Exit_json
       (if st = PStr ''present'' \<and> ex = None then changed_result ''Kerberos created''
        else if st = PStr ''present'' \<and> ex \<noteq> None then
          (if payload_changed (m\<lparr>existing := ex\<rparr>) then changed_result ''Kerberos updated''
           else defaults)
        else if st = PStr ''absent'' \<and> ex \<noteq> None then changed_result ''Kerberos deleted''
        else defaults),
     m1\<lparr>existing := ex\<rparr>)"
proof -
  from find_no_write [OF assms(1)] obtain cs where m1: "m1 = add_calls cs m" by blast
  show ?thesis
    using assms
    by (simp add: m1 run_command_surfaced try_body_def create_def update_def delete_def
        report_def defaults_def changed_result_def Let_def)
qed

lemma map_of_filter_values:
  assumes "distinct (map fst xs)"
  shows "map_of [(k, v) \<leftarrow> xs. P v] k =
    (case map_of xs k of None \<Rightarrow> None | Some v \<Rightarrow> if P v then Some v else None)"
  using assms
proof (induction xs)
  case Nil
  then show ?case by simp
next
  case (Cons x xs)
  obtain k' v' where x: "x = (k', v')" by (cases x)
  from Cons.prems have "k' \<notin> fst ` set xs" by (simp add: x)
  then have none: "map_of xs k' = None" by (simp add: map_of_eq_None_iff)
  from \<open>k' \<notin> fst ` set xs\<close> have "k' \<notin> fst ` set [(k, v) \<leftarrow> xs. P v]" by auto
  then have none': "map_of [(k, v) \<leftarrow> xs. P v] k' = None" by (simp add: map_of_eq_None_iff)
  from Cons show ?case by (auto simp: x none none' split: option.splits)
qed

lemma distinct_key_fields: "distinct (map fst (key_fields r))"
  by (simp add: key_fields_def)

lemma map_of_model_dump:
  "map_of (model_dump r) k =
    (case map_of (key_fields r) k of None \<Rightarrow> None | Some v \<Rightarrow> if v \<noteq> PNone then Some v else None)"
  unfolding model_dump_def by (rule map_of_filter_values [OF distinct_key_fields])

lemma map_of_key_fields_id: "map_of (key_fields r) ''id'' = Some (key_id r)"
  by (simp add: key_fields_def)

lemma dump_id:
  "(if model_dump r \<noteq> [] \<and> map_of (model_dump r) ''id'' \<noteq> None
    then dict_get (model_dump r) ''id'' else PNone) = key_id r"
proof (cases "key_id r = PNone")
  case True
  then show ?thesis by (simp add: map_of_model_dump map_of_key_fields_id)
next
  case False
  then have "map_of (model_dump r) ''id'' = Some (key_id r)"
    by (simp add: map_of_model_dump map_of_key_fields_id)
  moreover from this have "model_dump r \<noteq> []" by auto
  ultimately show ?thesis by (simp add: dict_get_def)
qed

lemma run_create:
  assumes "find m = (Inr None, m1)" and "map_of (params m) ''state'' = Some (PStr ''present'')"
    and "\<not> check_mode m"
  shows "run_command m =
    (case create_resp (client m) (payload m) of
       Inl e \<Rightarrow> surfaced (Raise e)
     | Inr r \<Rightarrow> Exit_json (full_result True (Some ''Kerberos created'') (key_id r) []
                  (model_dump r)),
     add_calls [Create_call (payload m)] (m1\<lparr>existing := None\<rparr>))"
proof -
  from find_no_write [OF assms(1)] obtain cs where m1: "m1 = add_calls cs m" by blast
  show ?thesis
    using assms
    by (simp add: m1 run_command_surfaced try_body_def create_def api_create_eq
        report_def full_result_def Let_def item_val_def dump_id del: not_None_eq
        split: sum.splits)
qed

lemma run_update:
  assumes "find m = (Inr (Some e), m1)" and "map_of (params m) ''state'' = Some (PStr ''present'')"
    and "\<not> check_mode m" and "payload_changed (m\<lparr>existing := Some e\<rparr>)"
  shows "run_command m =
    (case update_resp (client m) (key_id e) (payload m) of
       Inl x \<Rightarrow> surfaced (Raise x)
     | Inr r \<Rightarrow> Exit_json (full_result True (Some ''Kerberos updated'') (key_id e)
                  (model_dump e) (model_dump r)),
     add_calls [Update_call (key_id e) (payload m)] (m1\<lparr>existing := Some e\<rparr>))"
proof -
  from find_no_write [OF assms(1)] obtain cs where m1: "m1 = add_calls cs m" by blast
  show ?thesis
    using assms
    by (simp add: m1 run_command_surfaced try_body_def update_def api_update_eq
        report_def full_result_def Let_def item_val_def split: sum.splits)
qed

lemma run_delete:
  assumes "find m = (Inr (Some e), m1)" and "map_of (params m) ''state'' = Some (PStr ''absent'')"
    and "\<not> check_mode m"
  shows "run_command m =
    (case delete_resp (client m) (key_id e) of
       Inl x \<Rightarrow> surfaced (Raise x)
     | Inr u \<Rightarrow> Exit_json (full_result True (Some ''Kerberos deleted'') (key_id e)
                  (model_dump e) []),
     add_calls [Delete_call (key_id e)] (m1\<lparr>existing := Some e\<rparr>))"
proof -
  from find_no_write [OF assms(1)] obtain cs where m1: "m1 = add_calls cs m" by blast
  show ?thesis
    using assms
    by (simp add: m1 run_command_surfaced try_body_def delete_def api_delete_eq
        report_def full_result_def Let_def item_val_def split: sum.splits)
qed

lemma run_noop:
  assumes "find m = (Inr ex, m1)" and "map_of (params m) ''state'' = Some st"
    and "\<not> check_mode m"
    and "st = PStr ''present'' \<longrightarrow> ex \<noteq> None \<and> \<not> payload_changed (m\<lparr>existing := ex\<rparr>)"
    and "st = PStr ''absent'' \<longrightarrow> ex = None"
  shows "run_command m =
    (Exit_json (full_result False None (case ex of None \<Rightarrow> PNone | Some e \<Rightarrow> key_id e)
                  (case ex of None \<Rightarrow> [] | Some e \<Rightarrow> model_dump e) []),
     m1\<lparr>existing := ex\<rparr>)"
proof -
  from find_no_write [OF assms(1)] obtain cs where m1: "m1 = add_calls cs m" by blast
  show ?thesis
    using assms
    by (auto simp add: m1 run_command_surfaced try_body_def
        report_def full_result_def Let_def item_val_def split: sum.splits option.splits)
qed

lemma planned_transition:
  assumes "st = PStr ''present'' \<or> st = PStr ''absent''"
  shows "planned st ex m =
    transition (ex \<noteq> None) (st = PStr ''present'') (payload_changed (m\<lparr>existing := ex\<rparr>))"
  using assms by (auto simp: planned_def transition_def)

lemma run_after_find:
  assumes "find m = (Inr ex, m1)" and "map_of (params m) ''state'' = Some st"
  shows "run_command m =
    (if check_mode m then
       Exit_json (case planned st ex m of
                    Create \<Rightarrow> changed_result ''Kerberos created''
                  | Update \<Rightarrow> changed_result ''Kerberos updated''
                  | Delete \<Rightarrow> changed_result ''Kerberos deleted''
                  | No_op \<Rightarrow> defaults)
     else
       (case planned st ex m of
          Create \<Rightarrow>
            (case create_resp (client m) (payload m) of
               Inl e \<Rightarrow> surfaced (Raise e)
             | Inr r \<Rightarrow> Exit_json (full_result True (Some ''Kerberos created'') (key_id r) []
                          (model_dump r)))
        | Update \<Rightarrow>
            (case ex of
               None \<Rightarrow> Raise (AttributeError ''id'')
             | Some e \<Rightarrow>
                 (case update_resp (client m) (key_id e) (payload m) of
                    Inl x \<Rightarrow> surfaced (Raise x)
                  | Inr r \<Rightarrow> Exit_json (full_result True (Some ''Kerberos updated'') (key_id e)
                               (model_dump e) (model_dump r))))
        | Delete \<Rightarrow>
            (case ex of
               None \<Rightarrow> Raise (AttributeError ''id'')
             | Some e \<Rightarrow>
                 (case delete_resp (client m) (key_id e) of
                    Inl x \<Rightarrow> surfaced (Raise x)
                  | Inr u \<Rightarrow> Exit_json (full_result True (Some ''Kerberos deleted'') (key_id e)
                               (model_dump e) [])))
        | No_op \<Rightarrow>
            Exit_json (full_result False None (case ex of None \<Rightarrow> PNone | Some e \<Rightarrow> key_id e)
              (case ex of None \<Rightarrow> [] | Some e \<Rightarrow> model_dump e) [])),
     add_calls (if check_mode m then [] else action_calls (planned st ex m) ex (payload m))
       (m1\<lparr>existing := ex\<rparr>))"
proof (cases "check_mode m")
  case True
  show ?thesis
    using run_check_mode [OF assms True] True by (auto simp: planned_def)
next
  case False
  consider (c) "planned st ex m = Create" | (u) "planned st ex m = Update"
    | (d) "planned st ex m = Delete" | (n) "planned st ex m = No_op"
    by (cases "planned st ex m") auto
  then show ?thesis
  proof cases
    case c
    then have "st = PStr ''present''" "ex = None"
      by (auto simp: planned_def split: if_splits)
    with run_create [of m m1] assms False c show ?thesis
      by (simp add: action_calls_def)
  next
    case u
    then obtain e where "st = PStr ''present''" "ex = Some e" "payload_changed (m\<lparr>existing := Some e\<rparr>)"
      by (auto simp: planned_def split: if_splits)
    with run_update [of m e m1] assms False u show ?thesis
      by (simp add: action_calls_def)
  next
    case d
    then obtain e where "st = PStr ''absent''" "ex = Some e"
      by (auto simp: planned_def split: if_splits)
    with run_delete [of m e m1] assms False d show ?thesis
      by (simp add: action_calls_def)
  next
    case n
    then have "st = PStr ''present'' \<longrightarrow> ex \<noteq> None \<and> \<not> payload_changed (m\<lparr>existing := ex\<rparr>)"
      and "st = PStr ''absent'' \<longrightarrow> ex = None"
      by (auto simp: planned_def split: if_splits)
    with run_noop [of m ex m1 st] assms False n show ?thesis
      by (simp add: action_calls_def)
  qed
qed

lemma load_params_task_new:
  "load_params task_new =
     [(''csp_url'', PNone), (''api_key'', PNone), (''id'', PStr ''keys/kerberos/k1''),
      (''state'', PStr ''present''), (''comment'', PStr ''new''), (''tags'', PNone)]"
  by (simp add: load_params_def task_new_def common_args_def module_args_def)

lemma module_new_simps:
  "params (module_new cm) = load_params task_new"
  "check_mode (module_new cm) = cm"
  "client (module_new cm) = remote key_old"
  "payload_params (module_new cm) = [(''comment'', PStr ''new'')]"
  "payload (module_new cm) = from_dict [(''comment'', PStr ''new'')]"
  "existing (module_new cm) = None"
  by (simp_all add: module_new_def init_def Let_def load_params_task_new exclude_def)

lemma remote_simps:
  "read_resp (remote k) i = (if i = key_id k then Inr k else Inl not_found)"
  "list_resp (remote k) f = Inr [k]"
  "create_resp (remote k) b = Inr (b\<lparr>key_id := PStr ''keys/kerberos/k2''\<rparr>)"
  "update_resp (remote k) i b = (if i = key_id k then Inr (k\<lparr>comment := comment b\<rparr>) else Inl not_found)"
  "delete_resp (remote k) i = (if i = key_id k then Inr () else Inl not_found)"
  "calls (remote k) = []"
  by (simp_all add: remote_def)

lemma key_old_id: "key_id key_old = PStr ''keys/kerberos/k1''"
  by (simp add: key_old_def)

lemma find_module_new:
  "find (module_new cm) =
     (Inr (Some key_old), add_calls [Read_call (PStr ''keys/kerberos/k1'')] (module_new cm))"
  by (simp add: find_def api_read_eq module_new_simps load_params_task_new remote_simps key_old_id)

lemma find_not_exit:
  assumes "find m = (Inl s, m1)"
  shows "s \<noteq> Exit_json res"
  using assms
  by (auto simp: find_def api_read_eq api_list_eq
      split: option.splits if_splits sum.splits exn.splits)

lemma surfaced_exit: "surfaced s = Exit_json res \<longleftrightarrow> s = Exit_json res"
  by (auto simp: surfaced_def split: stop.splits exn.splits)

lemma exit_after_find:
  assumes "fst (run_command m) = Exit_json res"
  shows "\<exists>ex m1 st. find m = (Inr ex, m1) \<and> map_of (params m) ''state'' = Some st"
proof -
  obtain x m1 where f: "find m = (x, m1)" by (cases "find m")
  show ?thesis
  proof (cases x)
    case (Inl s)
    with f assms run_find_fails [of m s m1] find_not_exit [of m s m1 res] show ?thesis
      by (simp add: surfaced_exit)
  next
    case (Inr ex)
    show ?thesis
    proof (cases "map_of (params m) ''state''")
      case None
      with f Inr assms run_no_state [of m ex m1] show ?thesis by simp
    next
      case (Some st)
      with f Inr show ?thesis by simp
    qed
  qed
qed

lemma planned_ex:
  "planned st ex m = Update \<or> planned st ex m = Delete \<Longrightarrow> ex \<noteq> None"
  by (auto simp: planned_def split: if_splits)

lemma exit_shape:
  assumes "find m = (Inr ex, m1)" and "map_of (params m) ''state'' = Some st"
    and "fst (run_command m) = Exit_json res"
  shows "if check_mode m then
           res = [(''changed'', PBool (planned st ex m \<noteq> No_op)), (''object'', PDict []),
                  (''id'', PNone)]
                 @ (case action_msg (planned st ex m) of None \<Rightarrow> [] | Some s \<Rightarrow> [(''msg'', PStr s)])
         else \<exists>i before after.
           res = full_result (planned st ex m \<noteq> No_op) (action_msg (planned st ex m)) i before after"
proof (cases "check_mode m")
  case True
  with assms(3) show ?thesis
    by (cases "planned st ex m")
      (simp_all add: run_after_find [OF assms(1,2)] changed_result_def defaults_def action_msg_def)
next
  case False
  with assms(3) planned_ex [of st ex m] show ?thesis
    by (cases "planned st ex m")
      (auto simp add: run_after_find [OF assms(1,2)] action_msg_def surfaced_exit
        split: sum.splits option.splits)
qed

lemma find_check_mode:
  "find (m\<lparr>check_mode := b\<rparr>) = (fst (find m), (snd (find m))\<lparr>check_mode := b\<rparr>)"
  by (simp add: find_def api_read_def api_list_def
      split: option.splits if_splits sum.splits exn.splits)

lemma planned_check_mode [simp]: "planned st ex (m\<lparr>check_mode := b\<rparr>) = planned st ex m"
  by (simp add: planned_def payload_changed_def split: option.splits)

lemma load_params_task_gone:
  "load_params (task_gone st) =
     [(''csp_url'', PNone), (''api_key'', PNone), (''id'', PStr ''keys/kerberos/k9''),
      (''state'', PStr st), (''comment'', PNone), (''tags'', PNone)]"
  by (simp add: load_params_def task_gone_def common_args_def module_args_def)

lemma module_gone_simps:
  "params (module_gone st) = load_params (task_gone st)"
  "check_mode (module_gone st) = False"
  "client (module_gone st) = remote key_old"
  "payload_params (module_gone st) = []"
  "existing (module_gone st) = None"
  by (simp_all add: module_gone_def init_def Let_def load_params_task_gone exclude_def)

lemma load_params_task_same:
  "load_params task_same =
     [(''csp_url'', PNone), (''api_key'', PNone), (''id'', PStr ''keys/kerberos/k1''),
      (''state'', PStr ''present''), (''comment'', PStr ''old''), (''tags'', PNone)]"
  by (simp add: load_params_def task_same_def common_args_def module_args_def)

lemma module_same_simps:
  "params module_same = load_params task_same"
  "check_mode module_same = False"
  "client module_same = remote key_old"
  "payload_params module_same = [(''comment'', PStr ''old'')]"
  "existing module_same = None"
  by (simp_all add: module_same_def init_def Let_def load_params_task_same exclude_def)

lemma find_module_same:
  "find module_same =
     (Inr (Some key_old), add_calls [Read_call (PStr ''keys/kerberos/k1'')] module_same)"
  by (simp add: find_def api_read_eq module_same_simps load_params_task_same remote_simps key_old_id)

lemma state_module_same: "map_of (params module_same) ''state'' = Some (PStr ''present'')"
  by (simp add: module_same_simps load_params_task_same)

lemma planned_module_same: "planned (PStr ''present'') (Some key_old) module_same = No_op"
  by (simp add: planned_def payload_changed_def is_changed_def model_dump_def key_fields_def
      module_same_simps key_old_def)

lemma run_module_same:
  "run_command module_same =
     (Exit_json (full_result False None (key_id key_old) (model_dump key_old) []),
      add_calls [Read_call (PStr ''keys/kerberos/k1'')] (module_same\<lparr>existing := Some key_old\<rparr>))"
  by (simp add: run_after_find [OF find_module_same state_module_same] planned_module_same
      module_same_simps action_calls_def)

lemma find_ok_cases:
  assumes "find m = (Inr ex, m1)"
  shows "(\<exists>i r. m1 = add_calls [Read_call i] m \<and> read_resp (client m) i = Inr r \<and> ex = Some r)
    \<or> (\<exists>i s r b. m1 = add_calls [Read_call i] m
          \<and> read_resp (client m) i = Inl (NotFoundException s r b)
          \<and> map_of (params m) ''state'' = Some (PStr ''absent'') \<and> ex = None)
    \<or> (\<exists>f rs. m1 = add_calls [List_call f] m \<and> list_resp (client m) f = Inr rs)"
  using assms
  by (auto simp: find_def api_read_eq api_list_eq
      split: option.splits if_splits sum.splits exn.splits)

lemma find_fail_cases:
  assumes "find m = (Inl s, m1)" and "map_of (params m) ''state'' = Some st"
  shows "(m1 = m \<and> (\<exists>k. s = Raise (KeyError k)))
    \<or> (\<exists>i e. m1 = add_calls [Read_call i] m \<and> read_resp (client m) i = Inl e \<and> s = Raise e)
    \<or> (\<exists>f e. m1 = add_calls [List_call f] m \<and> list_resp (client m) f = Inl e \<and> s = Raise e)
    \<or> (\<exists>f rs. m1 = add_calls [List_call f] m \<and> list_resp (client m) f = Inr rs
          \<and> s = Fail_json (Found_multiple rs))"
  using assms
  by (auto simp: find_def api_read_eq api_list_eq
      split: option.splits if_splits sum.splits exn.splits)

lemma add_calls_inject [simp]: "add_calls cs m = add_calls ds m \<longleftrightarrow> cs = ds"
proof
  assume "add_calls cs m = add_calls ds m"
  then have "calls (client (add_calls cs m)) = calls (client (add_calls ds m))" by simp
  then show "cs = ds" by simp
qed simp

lemma surfaced_api:
  assumes "e = ApiException s r b \<or> e = NotFoundException s r b"
  shows "surfaced (Raise e) = Fail_json (Failed_to_execute s r b)"
  using assms by auto

lemma module_failing_simps:
  "params module_failing = load_params task_new"
  "check_mode module_failing = False"
  "client module_failing = remote_failing"
  "payload_params module_failing = [(''comment'', PStr ''new'')]"
  "payload module_failing = from_dict [(''comment'', PStr ''new'')]"
  "existing module_failing = None"
  by (simp_all add: module_failing_def init_def Let_def load_params_task_new exclude_def)

lemma remote_failing_simps:
  "read_resp remote_failing i = (if i = key_id key_old then Inr key_old else Inl not_found)"
  "update_resp remote_failing i b = Inl (ApiException 500 ''Internal Server Error'' ''{}'')"
  "calls remote_failing = []"
  by (simp_all add: remote_failing_def remote_def)

lemma find_module_failing:
  "find module_failing =
     (Inr (Some key_old), add_calls [Read_call (PStr ''keys/kerberos/k1'')] module_failing)"
  by (simp add: find_def api_read_eq module_failing_simps load_params_task_new
      remote_failing_simps key_old_id)

lemma state_module_failing: "map_of (params module_failing) ''state'' = Some (PStr ''present'')"
  by (simp add: module_failing_simps load_params_task_new)

lemma planned_module_failing: "planned (PStr ''present'') (Some key_old) module_failing = Update"
  by (simp add: planned_def payload_changed_def is_changed_def model_dump_def key_fields_def
      module_failing_simps key_old_def)

lemma run_module_failing:
  "run_command module_failing =
     (Fail_json (Failed_to_execute 500 ''Internal Server Error'' ''{}''),
      add_calls [Read_call (PStr ''keys/kerberos/k1''),
                 Update_call (PStr ''keys/kerberos/k1'') (from_dict [(''comment'', PStr ''new'')])]
        (module_failing\<lparr>existing := Some key_old\<rparr>))"
  by (simp add: run_after_find [OF find_module_failing state_module_failing]
      planned_module_failing module_failing_simps remote_failing_simps action_calls_def key_old_id)

lemma is_changed_iff:
  "is_changed d pl \<longleftrightarrow>
     (\<exists>(k, v) \<in> set pl. case map_of d k of None \<Rightarrow> True | Some w \<Rightarrow> \<not> py_eq w v)"
  by (simp add: is_changed_def list_ex_iff)

lemma is_changed_cong:
  assumes "\<forall>k \<in> fst ` set pl. map_of d k = map_of d' k"
  shows "is_changed d pl = is_changed d' pl"
  unfolding is_changed_iff using assms by force

lemma run_command_frame:
  "\<exists>cs ex. snd (run_command m) = add_calls cs (m\<lparr>existing := ex\<rparr>)"
proof -
  obtain x m1 where f: "find m = (x, m1)" by (cases "find m")
  from find_no_write [OF f] obtain cs0 where m1: "m1 = add_calls cs0 m" by blast
  have same: "m\<lparr>existing := existing m\<rparr> = m" by simp
  show ?thesis
  proof (cases x)
    case (Inl s)
    from run_find_fails [OF f [unfolded Inl]] m1
    have "snd (run_command m) = add_calls cs0 (m\<lparr>existing := existing m\<rparr>)" by simp
    then show ?thesis by blast
  next
    case (Inr ex)
    show ?thesis
    proof (cases "map_of (params m) ''state''")
      case None
      from run_no_state [OF f [unfolded Inr] None] m1
      have "snd (run_command m) = add_calls cs0 (m\<lparr>existing := ex\<rparr>)" by simp
      then show ?thesis by blast
    next
      case (Some st)
      from run_after_find [OF f [unfolded Inr] Some] m1
      have "snd (run_command m) =
        add_calls (cs0 @ (if check_mode m then [] else action_calls (planned st ex m) ex (payload m)))
          (m\<lparr>existing := ex\<rparr>)" by simp
      then show ?thesis by blast
    qed
  qed
qed

lemma map_of_payload_params:
  assumes "distinct (map fst ps)"
  shows "map_of [(k, v) \<leftarrow> ps. v \<noteq> PNone \<and> k \<notin> set exclude] k =
    (if k \<in> set exclude then None
     else case map_of ps k of None \<Rightarrow> None | Some v \<Rightarrow> if v = PNone then None else Some v)"
  using assms
proof (induction ps)
  case Nil
  then show ?case by simp
next
  case (Cons x ps)
  obtain k' v' where x: "x = (k', v')" by (cases x)
  from Cons.prems have k': "k' \<notin> fst ` set ps" by (simp add: x)
  then have none: "map_of ps k' = None" by (simp add: map_of_eq_None_iff)
  from k' have "k' \<notin> fst ` set [(k, v) \<leftarrow> ps. v \<noteq> PNone \<and> k \<notin> set exclude]" by auto
  then have none': "map_of [(k, v) \<leftarrow> ps. v \<noteq> PNone \<and> k \<notin> set exclude] k' = None"
    by (simp add: map_of_eq_None_iff)
  from Cons show ?case by (auto simp: x none none' split: option.splits)
qed

lemma load_params_no_name: "map_of (load_params task) ''name'' = None"
  by (simp add: load_params_def common_args_def module_args_def)

lemma load_params_id:
  "map_of (load_params task) ''id'' =
     Some (case map_of task ''id'' of None \<Rightarrow> PNone | Some v \<Rightarrow> v)"
  by (simp add: load_params_def common_args_def module_args_def split: option.splits)

lemma main_without_id:
  assumes "map_of task ''id'' = None \<or> map_of task ''id'' = Some PNone"
  shows "main task cm cl = (Raise (KeyError ''name''), init (load_params task) cm cl)"
proof -
  let ?m = "init (load_params task) cm cl"
  have p: "params ?m = load_params task"
    by (simp add: init_def Let_def)
  from assms have i: "map_of (params ?m) ''id'' = Some PNone"
    by (auto simp: p load_params_id)
  have n: "map_of (params ?m) ''name'' = None"
    by (simp add: p load_params_no_name)
  have "find ?m = (Inl (Raise (KeyError ''name'')), ?m)"
    by (simp add: find_def i n)
  from run_find_fails [OF this] show ?thesis
    by (simp add: main_def)
qed













lemma py_eq_refl: "wf_val v \<Longrightarrow> py_eq v v"
proof (induction v)
  case (PDict xs)
  from PDict.prems have d: "distinct (map fst xs)" and w: "\<forall>(k, v) \<in> set xs. wf_val v"
    by (auto simp: list_all_iff)
  have "map_of xs k = Some v \<and> py_eq v v" if "(k, v) \<in> set xs" for k v
  proof -
    from d that have "map_of xs k = Some v" by simp
    moreover from w that have "wf_val v" by auto
    moreover from that have "v \<in> Basic_BNFs.snds (k, v)" by simp
    ultimately show ?thesis using PDict.IH that by blast
  qed
  moreover have "map_of xs k \<noteq> None" if "(k, v) \<in> set xs" for k v
  proof -
    from that have "k \<in> fst ` set xs" by force
    then show ?thesis by (simp add: map_of_eq_None_iff)
  qed
  ultimately show ?case
    by (fastforce simp: list_all_iff)
qed simp_all

lemma py_eq_reordered:
  assumes "wf_val (PDict xs)" and "distinct (map fst ys)" and "set ys = set xs"
  shows "py_eq (PDict xs) (PDict ys)"
proof -
  from assms(1) have d: "distinct (map fst xs)" and w: "\<forall>(k, v) \<in> set xs. wf_val v"
    by (auto simp: list_all_iff)
  have "map_of ys k = Some v \<and> py_eq v v" if "(k, v) \<in> set xs" for k v
    using that assms(2,3) w py_eq_refl by auto
  moreover have "map_of xs k \<noteq> None" if "(k, v) \<in> set ys" for k v
  proof -
    from that assms(3) have "k \<in> fst ` set xs" by force
    then show ?thesis by (simp add: map_of_eq_None_iff)
  qed
  ultimately show ?thesis
    by (auto simp: list_all_iff)
qed

lemma py_eq_bool_int: "py_eq (PBool True) (PInt 1)" "py_eq (PInt 0) (PBool False)"
  by simp_all







lemma load_params_task_tags:
  "load_params task_tags =
     [(''csp_url'', PNone), (''api_key'', PNone), (''id'', PStr ''keys/kerberos/k1''),
      (''state'', PStr ''present''), (''comment'', PNone),
      (''tags'', PDict [(''site'', PStr ''a''), (''owner'', PStr ''b'')])]"
  by (simp add: load_params_def task_tags_def common_args_def module_args_def)

lemma module_tags_simps:
  "params module_tags = load_params task_tags"
  "check_mode module_tags = False"
  "client module_tags = remote key_tagged"
  "payload_params module_tags = [(''tags'', PDict [(''site'', PStr ''a''), (''owner'', PStr ''b'')])]"
  "existing module_tags = None"
  by (simp_all add: module_tags_def init_def Let_def load_params_task_tags exclude_def)

lemma dump_key_tagged_tags:
  "map_of (model_dump key_tagged) ''tags'' =
     Some (PDict [(''owner'', PStr ''b''), (''site'', PStr ''a'')])"
  by (simp add: map_of_model_dump key_fields_def key_tagged_def)

lemma dump_key_old_comment: "map_of (model_dump key_old) ''comment'' = Some (PStr ''old'')"
  by (simp add: map_of_model_dump key_fields_def key_old_def)





section \<open>The claims\<close>

text \<open>
  C1. Once the lookup has returned the existing resource (present or absent), the pair
  (existing, declared state) and the drift decision select the action of the
  specification's table. Outside check mode the remote calls issued after the lookup are
  exactly the write of that action (none for a no-op), the lookup itself issues no write,
  and when the write is answered without error the invocation exits with
  \<^verbatim>\<open>changed\<close> true for create, update and delete and false for a no-op. In check mode
  the same \<^verbatim>\<open>changed\<close> is reported and no write is issued.
\<close>

theorem transition_table:
  assumes "find m = (Inr ex, m1)"
    and "map_of (params m) ''state'' = Some st"
    and "st = PStr ''present'' \<or> st = PStr ''absent''"
  shows "let a = transition (ex \<noteq> None) (st = PStr ''present'')
                   (payload_changed (m\<lparr>existing := ex\<rparr>));
             ws = (if check_mode m then [] else action_calls a ex (payload m))
         in calls (client (snd (run_command m))) = calls (client m1) @ ws
          \<and> filter is_write (calls (client m1)) = filter is_write (calls (client m))
          \<and> length ws \<le> 1
          \<and> ((\<forall>c \<in> set ws. call_error (client m) c = None) \<longrightarrow>
               (\<exists>res. fst (run_command m) = Exit_json res
                  \<and> map_of res ''changed'' = Some (PBool (a \<noteq> No_op))))"
proof -
  define a where "a = transition (ex \<noteq> None) (st = PStr ''present'')
    (payload_changed (m\<lparr>existing := ex\<rparr>))"
  define ws where "ws = (if check_mode m then [] else action_calls a ex (payload m))"
  have pa: "planned st ex m = a"
    unfolding a_def by (rule planned_transition [OF assms(3)])
  note run = run_after_find [OF assms(1,2), unfolded pa]
  have calls: "calls (client (snd (run_command m))) = calls (client m1) @ ws"
    by (simp add: run ws_def)
  from find_no_write [OF assms(1)] obtain cs where "m1 = add_calls cs m" "filter is_write cs = []"
    by blast
  then have lookup: "filter is_write (calls (client m1)) = filter is_write (calls (client m))"
    by simp
  have len: "length ws \<le> 1"
    by (simp add: ws_def action_calls_def split: action.splits option.splits)
  have ok: "\<exists>res. fst (run_command m) = Exit_json res
      \<and> map_of res ''changed'' = Some (PBool (a \<noteq> No_op))"
    if "\<forall>c \<in> set ws. call_error (client m) c = None"
  proof (cases "check_mode m")
    case True
    then show ?thesis
      by (cases a) (simp_all add: run changed_result_def defaults_def)
  next
    case False
    have ex_a: "a = Update \<or> a = Delete \<Longrightarrow> ex \<noteq> None"
      by (auto simp: a_def transition_def split: if_splits)
    show ?thesis
      using that False ex_a
      by (cases a) (auto simp add: run ws_def action_calls_def full_result_def
          split: sum.splits option.splits)
  qed
  show ?thesis
    using calls lookup len ok unfolding Let_def a_def [symmetric] ws_def [symmetric] by blast
qed

theorem transition_table_witness:
  "find (module_new False) =
     (Inr (Some key_old), add_calls [Read_call (PStr ''keys/kerberos/k1'')] (module_new False))
   \<and> map_of (params (module_new False)) ''state'' = Some (PStr ''present'')
   \<and> calls (client (snd (run_command (module_new False)))) =
       [Read_call (PStr ''keys/kerberos/k1''),
        Update_call (PStr ''keys/kerberos/k1'') (payload (module_new False))]
   \<and> (\<exists>res. fst (run_command (module_new False)) = Exit_json res
         \<and> map_of res ''changed'' = Some (PBool True))"
proof -
  have h1: "find (module_new False) =
     (Inr (Some key_old), add_calls [Read_call (PStr ''keys/kerberos/k1'')] (module_new False))"
    by (rule find_module_new)
  have h2: "map_of (params (module_new False)) ''state'' = Some (PStr ''present'')"
    by (simp add: module_new_simps load_params_task_new)
  have h3: "PStr ''present'' = PStr ''present'' \<or> PStr ''present'' = PStr ''absent''"
    by simp
  have drift: "payload_changed ((module_new False)\<lparr>existing := Some key_old\<rparr>)"
    by (simp add: payload_changed_def is_changed_def model_dump_def key_fields_def
        module_new_simps key_old_def)
  show ?thesis
    using transition_table [OF h1 h2 h3] h1 h2 drift
    by (simp add: transition_def action_calls_def Let_def module_new_simps remote_simps
        key_old_id)
qed

text \<open>
  C2. In check mode no remote write is issued, whatever the lookup returns. When the
  lookup succeeds the invocation exits at once after the lookup, with \<^verbatim>\<open>changed\<close> true
  exactly when a create, an update or a delete was selected; this is the value the run
  outside check mode reports when it succeeds. The result then holds \<^verbatim>\<open>changed\<close>,
  the initial \<^verbatim>\<open>object\<close> and \<^verbatim>\<open>id\<close>, and \<^verbatim>\<open>msg\<close> when an action was
  selected: no diff, and nothing assigned after the check-mode exit.
\<close>

theorem dry_run:
  assumes "check_mode m"
  shows "filter is_write (calls (client (snd (run_command m)))) = filter is_write (calls (client m))
    \<and> (\<forall>res. fst (run_command m) = Exit_json res \<longrightarrow>
          (map fst res = [''changed'', ''object'', ''id'']
             \<or> map fst res = [''changed'', ''object'', ''id'', ''msg''])
          \<and> map_of res ''object'' = Some (PDict []) \<and> map_of res ''id'' = Some PNone
          \<and> (\<forall>res'. fst (run_command (m\<lparr>check_mode := False\<rparr>)) = Exit_json res' \<longrightarrow>
                map_of res' ''changed'' = map_of res ''changed''))
    \<and> (\<forall>ex m1 st. find m = (Inr ex, m1) \<and> map_of (params m) ''state'' = Some st \<longrightarrow>
          calls (client (snd (run_command m))) = calls (client m1)
          \<and> (\<exists>res. fst (run_command m) = Exit_json res
                \<and> map_of res ''changed'' = Some (PBool (planned st ex m \<noteq> No_op))))"
proof (intro conjI allI impI)
  obtain x m1 where f: "find m = (x, m1)" by (cases "find m")
  from find_no_write [OF f] obtain cs where m1: "m1 = add_calls cs m" "filter is_write cs = []"
    by blast
  show "filter is_write (calls (client (snd (run_command m)))) = filter is_write (calls (client m))"
  proof (cases x)
    case (Inl s)
    with f m1 run_find_fails [of m s m1] show ?thesis by simp
  next
    case (Inr ex)
    show ?thesis
    proof (cases "map_of (params m) ''state''")
      case None
      with f Inr m1 run_no_state [of m ex m1] show ?thesis by simp
    next
      case (Some st)
      with f Inr m1 assms run_after_find [of m ex m1 st] show ?thesis by simp
    qed
  qed
next
  fix res
  assume e: "fst (run_command m) = Exit_json res"
  from exit_after_find [OF e] obtain ex m1 st
    where f: "find m = (Inr ex, m1)" and s: "map_of (params m) ''state'' = Some st"
    by blast
  from exit_shape [OF f s e] assms
  have res: "res = [(''changed'', PBool (planned st ex m \<noteq> No_op)), (''object'', PDict []),
      (''id'', PNone)]
      @ (case action_msg (planned st ex m) of None \<Rightarrow> [] | Some s \<Rightarrow> [(''msg'', PStr s)])"
    by simp
  show "map fst res = [''changed'', ''object'', ''id'']
      \<or> map fst res = [''changed'', ''object'', ''id'', ''msg'']"
    by (simp add: res split: option.splits)
  show "map_of res ''object'' = Some (PDict [])"
    by (simp add: res)
  show "map_of res ''id'' = Some PNone"
    by (simp add: res)
  fix res'
  assume e': "fst (run_command (m\<lparr>check_mode := False\<rparr>)) = Exit_json res'"
  have f': "find (m\<lparr>check_mode := False\<rparr>) = (Inr ex, m1\<lparr>check_mode := False\<rparr>)"
    by (simp add: find_check_mode f)
  have s': "map_of (params (m\<lparr>check_mode := False\<rparr>)) ''state'' = Some st"
    using s by simp
  from exit_shape [OF f' s' e']
  have "map_of res' ''changed'' = Some (PBool (planned st ex m \<noteq> No_op))"
    by (auto simp: full_result_def)
  then show "map_of res' ''changed'' = map_of res ''changed''"
    by (simp add: res)
next
  fix ex m1 st
  assume a: "find m = (Inr ex, m1) \<and> map_of (params m) ''state'' = Some st"
  then have f: "find m = (Inr ex, m1)" and s: "map_of (params m) ''state'' = Some st"
    by simp_all
  from run_after_find [OF f s] assms
  show "calls (client (snd (run_command m))) = calls (client m1)"
    by simp
  from run_after_find [OF f s] assms
  show "\<exists>res. fst (run_command m) = Exit_json res
      \<and> map_of res ''changed'' = Some (PBool (planned st ex m \<noteq> No_op))"
    by (cases "planned st ex m") (simp_all add: changed_result_def defaults_def)
qed

theorem dry_run_witness:
  "check_mode (module_new True)
   \<and> calls (client (snd (run_command (module_new True)))) = [Read_call (PStr ''keys/kerberos/k1'')]
   \<and> fst (run_command (module_new True)) =
       Exit_json [(''changed'', PBool True), (''object'', PDict []), (''id'', PNone),
                  (''msg'', PStr ''Kerberos updated'')]
   \<and> (\<exists>res'. fst (run_command (module_new False)) = Exit_json res'
         \<and> map_of res' ''changed'' = Some (PBool True))"
proof -
  have h: "check_mode (module_new True)"
    by (simp add: module_new_simps)
  have s: "map_of (params (module_new cm)) ''state'' = Some (PStr ''present'')" for cm
    by (simp add: module_new_simps load_params_task_new)
  have drift: "payload_changed ((module_new cm)\<lparr>existing := Some key_old\<rparr>)" for cm
    by (simp add: payload_changed_def is_changed_def model_dump_def key_fields_def
        module_new_simps key_old_def)
  have p: "planned (PStr ''present'') (Some key_old) (module_new cm) = Update" for cm
    by (simp add: planned_def drift)
  have run: "fst (run_command (module_new True)) =
       Exit_json [(''changed'', PBool True), (''object'', PDict []), (''id'', PNone),
                  (''msg'', PStr ''Kerberos updated'')]"
    by (simp add: run_after_find [OF find_module_new s] p module_new_simps changed_result_def)
  have eq: "(module_new True)\<lparr>check_mode := False\<rparr> = module_new False"
    by (simp add: module_new_def init_def Let_def)
  have run': "\<exists>res'. fst (run_command (module_new False)) = Exit_json res'"
    by (simp add: run_after_find [OF find_module_new s] p module_new_simps remote_simps key_old_id)
  from dry_run [OF h] run run' show ?thesis
    using h find_module_new [of True] s [of True]
    by (auto simp: eq module_new_simps remote_simps)
qed

text \<open>
  C3. The claim is about the lookup without a declared id. \<^verbatim>\<open>find\<close> builds the filter
  from \<^verbatim>\<open>self.params['name']\<close>, but \<^verbatim>\<open>main\<close> declares no option \<^verbatim>\<open>name\<close>, so
  \<^verbatim>\<open>params\<close> never has that key. For the task that declares only a comment the
  invocation stops with \<^verbatim>\<open>KeyError('name')\<close>, which the handler for
  \<^verbatim>\<open>ApiException\<close> does not catch, and no remote call is issued: there is no filter
  lookup, and none of the outcomes for zero, one or several matches.
\<close>

theorem lookup_by_name_raises:
  "map_of task_no_id ''id'' = None
   \<and> fst (main task_no_id False (remote key_old)) = Raise (KeyError ''name'')
   \<and> calls (client (snd (main task_no_id False (remote key_old)))) = []"
proof -
  have h: "map_of task_no_id ''id'' = None"
    by (simp add: task_no_id_def)
  then have "main task_no_id False (remote key_old) =
      (Raise (KeyError ''name''), init (load_params task_no_id) False (remote key_old))"
    by (intro main_without_id) simp
  with h show ?thesis
    by (simp add: init_def Let_def remote_simps)
qed




text \<open>
  C5. When an id is declared and the read by id answers not-found, the only remote call is
  that read. If the declared state is \<^verbatim>\<open>absent\<close>, \<^verbatim>\<open>find\<close> returns
  \<^verbatim>\<open>None\<close> and the invocation exits normally with \<^verbatim>\<open>changed\<close> false; otherwise
  \<^verbatim>\<open>find\<close> re-raises the exception, and the invocation fails with its status, reason
  and body.
\<close>

theorem not_found_by_id:
  assumes "map_of (params m) ''id'' = Some i" and "i \<noteq> PNone"
    and "read_resp (client m) i = Inl (NotFoundException s r b)"
    and "map_of (params m) ''state'' = Some st"
  shows "calls (client (snd (run_command m))) = calls (client m) @ [Read_call i]
    \<and> (if st = PStr ''absent'' then
          fst (find m) = Inr None
          \<and> (\<exists>res. fst (run_command m) = Exit_json res
                \<and> map_of res ''changed'' = Some (PBool False))
        else
          fst (find m) = Inl (Raise (NotFoundException s r b))
          \<and> fst (run_command m) = Fail_json (Failed_to_execute s r b))"
proof (cases "st = PStr ''absent''")
  case True
  from assms True have f: "find m = (Inr None, add_calls [Read_call i] m)"
    by (simp add: find_def api_read_eq)
  have p: "planned st None m = No_op"
    by (simp add: planned_def True)
  note run = run_after_find [OF f assms(4), unfolded p]
  from True show ?thesis
    by (simp add: run f defaults_def full_result_def action_calls_def)
next
  case False
  from assms False
  have f: "find m = (Inl (Raise (NotFoundException s r b)), add_calls [Read_call i] m)"
    by (simp add: find_def api_read_eq)
  from False show ?thesis
    by (simp add: run_find_fails [OF f] f)
qed

theorem not_found_by_id_witness:
  "map_of (params (module_gone ''absent'')) ''id'' = Some (PStr ''keys/kerberos/k9'')
   \<and> read_resp (client (module_gone ''absent'')) (PStr ''keys/kerberos/k9'') =
       Inl (NotFoundException 404 ''Not Found'' ''{}'')
   \<and> map_of (params (module_gone ''absent'')) ''state'' = Some (PStr ''absent'')
   \<and> fst (find (module_gone ''absent'')) = Inr None
   \<and> (\<exists>res. fst (run_command (module_gone ''absent'')) = Exit_json res
         \<and> map_of res ''changed'' = Some (PBool False))"
proof -
  have h1: "map_of (params (module_gone ''absent'')) ''id'' = Some (PStr ''keys/kerberos/k9'')"
    by (simp add: module_gone_simps load_params_task_gone)
  have h2: "PStr ''keys/kerberos/k9'' \<noteq> PNone"
    by simp
  have h3: "read_resp (client (module_gone ''absent'')) (PStr ''keys/kerberos/k9'') =
       Inl (NotFoundException 404 ''Not Found'' ''{}'')"
    by (simp add: module_gone_simps remote_simps key_old_id not_found_def)
  have h4: "map_of (params (module_gone ''absent'')) ''state'' = Some (PStr ''absent'')"
    by (simp add: module_gone_simps load_params_task_gone)
  from not_found_by_id [OF h1 h2 h3 h4] h1 h3 h4 show ?thesis
    by simp
qed

text \<open>
  C6. Let \<open>cs\<close> be the remote calls of one invocation and let the client answer one of
  them, \<open>c\<close>, with an API failure of status \<open>s\<close>, reason \<open>r\<close> and body \<open>b\<close> (an
  \<^verbatim>\<open>ApiException\<close>, or a \<^verbatim>\<open>NotFoundException\<close> other than the not-found of the
  read by id that is tolerated when the declared state is \<^verbatim>\<open>absent\<close>). Then the
  invocation ends in \<^verbatim>\<open>fail_json\<close> with exactly this status, reason and body, which is
  neither a successful exit nor a result dictionary; \<open>c\<close> is the last call issued, and it
  was issued once.
\<close>

theorem api_failure_is_fatal:
  assumes "calls (client (snd (run_command m))) = calls (client m) @ cs"
    and "c \<in> set cs"
    and "call_error (client m) c = Some e"
    and "e = ApiException s r b \<or> e = NotFoundException s r b"
    and "map_of (params m) ''state'' = Some st"
    and "\<not> (\<exists>i. c = Read_call i \<and> e = NotFoundException s r b \<and> st = PStr ''absent'')"
  shows "fst (run_command m) = Fail_json (Failed_to_execute s r b)
    \<and> (\<exists>pre. cs = pre @ [c] \<and> c \<notin> set pre)"
proof -
  obtain x m1 where f: "find m = (x, m1)" by (cases "find m")
  show ?thesis
  proof (cases x)
    case (Inl stp)
    note run = run_find_fails [OF f [unfolded Inl]]
    from find_fail_cases [OF f [unfolded Inl] assms(5)] consider
        (none) "m1 = m"
      | (read) i e' where "m1 = add_calls [Read_call i] m" "read_resp (client m) i = Inl e'"
          "stp = Raise e'"
      | (list) f e' where "m1 = add_calls [List_call f] m" "list_resp (client m) f = Inl e'"
          "stp = Raise e'"
      | (many) f rs where "m1 = add_calls [List_call f] m" "list_resp (client m) f = Inr rs"
      by blast
    then show ?thesis
    proof cases
      case none
      with assms(1,2) run show ?thesis by simp
    next
      case read
      with assms(1) run have "cs = [Read_call i]" by simp
      with assms(2) have "c = Read_call i" by simp
      with assms(3) read have "e' = e" by simp
      with read run surfaced_api [OF assms(4)] \<open>cs = [Read_call i]\<close> \<open>c = Read_call i\<close>
      show ?thesis by simp
    next
      case list
      with assms(1) run have "cs = [List_call f]" by simp
      with assms(2) have "c = List_call f" by simp
      with assms(3) list have "e' = e" by simp
      with list run surfaced_api [OF assms(4)] \<open>cs = [List_call f]\<close> \<open>c = List_call f\<close>
      show ?thesis by simp
    next
      case many
      with assms(1) run have "cs = [List_call f]" by simp
      with assms(2) have "c = List_call f" by simp
      with assms(3) many show ?thesis by simp
    qed
  next
    case (Inr ex)
    note f' = f [unfolded Inr]
    note run = run_after_find [OF f' assms(5)]
    define ws where "ws = (if check_mode m then [] else action_calls (planned st ex m) ex (payload m))"
    from find_no_write [OF f'] obtain cs0 where m1: "m1 = add_calls cs0 m"
      and nw: "filter is_write cs0 = []" by blast
    from assms(1) have cs: "cs = cs0 @ ws"
      by (simp add: run m1 ws_def)
    have lookup_ok: "c \<notin> set cs0"
    proof
      assume c0: "c \<in> set cs0"
      from find_ok_cases [OF f'] m1 c0 assms(3,4,6) assms(5) show False
        by auto
    qed
    with assms(2) cs have cw: "c \<in> set ws" by simp
    then have ncm: "\<not> check_mode m" by (auto simp: ws_def split: if_splits)
    from cw ncm have "ws = [c]"
      by (auto simp: ws_def action_calls_def split: action.splits option.splits)
    with cs lookup_ok have pre: "\<exists>pre. cs = pre @ [c] \<and> c \<notin> set pre" by blast
    from \<open>ws = [c]\<close> ncm assms(3) surfaced_api [OF assms(4)]
    have "fst (run_command m) = Fail_json (Failed_to_execute s r b)"
      by (cases "planned st ex m"; cases ex)
        (auto simp add: run ws_def action_calls_def split: sum.splits)
    with pre show ?thesis by simp
  qed
qed

theorem api_failure_is_fatal_witness:
  "calls (client (snd (run_command module_failing))) =
     calls (client module_failing)
     @ [Read_call (PStr ''keys/kerberos/k1''),
        Update_call (PStr ''keys/kerberos/k1'') (from_dict [(''comment'', PStr ''new'')])]
   \<and> call_error (client module_failing)
         (Update_call (PStr ''keys/kerberos/k1'') (from_dict [(''comment'', PStr ''new'')])) =
       Some (ApiException 500 ''Internal Server Error'' ''{}'')
   \<and> map_of (params module_failing) ''state'' = Some (PStr ''present'')
   \<and> fst (run_command module_failing) =
       Fail_json (Failed_to_execute 500 ''Internal Server Error'' ''{}'')"
proof -
  let ?c = "Update_call (PStr ''keys/kerberos/k1'') (from_dict [(''comment'', PStr ''new'')])"
  let ?cs = "[Read_call (PStr ''keys/kerberos/k1''), ?c]"
  let ?e = "ApiException 500 ''Internal Server Error'' ''{}''"
  have h1: "calls (client (snd (run_command module_failing))) = calls (client module_failing) @ ?cs"
    by (simp add: run_module_failing module_failing_simps remote_failing_simps)
  have h2: "?c \<in> set ?cs"
    by simp
  have h3: "call_error (client module_failing) ?c = Some ?e"
    by (simp add: module_failing_simps remote_failing_simps)
  have h4: "?e = ApiException 500 ''Internal Server Error'' ''{}''
      \<or> ?e = NotFoundException 500 ''Internal Server Error'' ''{}''"
    by simp
  have h6: "\<not> (\<exists>i. ?c = Read_call i \<and> ?e = NotFoundException 500 ''Internal Server Error'' ''{}''
      \<and> PStr ''present'' = PStr ''absent'')"
    by simp
  from api_failure_is_fatal [OF h1 h2 h3 h4 state_module_failing h6] h1 h3 state_module_failing
  show ?thesis by simp
qed

text \<open>
  C7. \<^verbatim>\<open>payload_changed\<close> is true when there is no existing resource. Otherwise it is
  true iff some item of the payload parameters is missing from the serialised existing
  resource or has a value there that Python's \<^verbatim>\<open>==\<close> tells apart from the
  payload's, where the serialisation keeps exactly the fields that are not \<^verbatim>\<open>None\<close>.
  Two existing resources that agree on the fields named in the payload get the same
  decision: a field that the payload does not mention never triggers a change. Nor does
  the order in which a dictionary value such as \<^verbatim>\<open>tags\<close> lists its items. For the
  module that \<^verbatim>\<open>__init__\<close> builds, the decision is taken on the declared parameters
  that are set and are not control fields, and on nothing else.
\<close>

theorem drift_decision:
  "payload_changed m =
     (case existing m of
        None \<Rightarrow> True
      | Some e \<Rightarrow>
          (\<exists>(k, v) \<in> set (payload_params m).
             case map_of (model_dump e) k of None \<Rightarrow> True | Some w \<Rightarrow> \<not> py_eq w v))
   \<and> (\<forall>e k. map_of (model_dump e) k =
         (case map_of (key_fields e) k of
            None \<Rightarrow> None
          | Some v \<Rightarrow> if v = PNone then None else Some v))
   \<and> (\<forall>e e'. (\<forall>k \<in> fst ` set (payload_params m). map_of (key_fields e) k = map_of (key_fields e') k)
         \<longrightarrow> payload_changed (m\<lparr>existing := Some e\<rparr>) = payload_changed (m\<lparr>existing := Some e'\<rparr>))
   \<and> (\<forall>xs ys. wf_val (PDict xs) \<and> distinct (map fst ys) \<and> set ys = set xs
         \<longrightarrow> py_eq (PDict xs) (PDict ys))
   \<and> (\<forall>ps cm cl e.
         payload_changed ((init ps cm cl)\<lparr>existing := Some e\<rparr>) =
           (\<exists>(k, v) \<in> set ps. v \<noteq> PNone \<and> k \<notin> set exclude
              \<and> (case map_of (model_dump e) k of None \<Rightarrow> True | Some w \<Rightarrow> \<not> py_eq w v)))"
proof (intro conjI allI impI)
  show "payload_changed m =
     (case existing m of
        None \<Rightarrow> True
      | Some e \<Rightarrow>
          (\<exists>(k, v) \<in> set (payload_params m).
             case map_of (model_dump e) k of None \<Rightarrow> True | Some w \<Rightarrow> \<not> py_eq w v))"
    by (simp add: payload_changed_def is_changed_iff split: option.splits)
next
  fix e k
  show "map_of (model_dump e) k =
         (case map_of (key_fields e) k of
            None \<Rightarrow> None
          | Some v \<Rightarrow> if v = PNone then None else Some v)"
    by (simp add: map_of_model_dump split: option.splits)
next
  fix e e'
  assume a: "\<forall>k \<in> fst ` set (payload_params m). map_of (key_fields e) k = map_of (key_fields e') k"
  then have "\<forall>k \<in> fst ` set (payload_params m). map_of (model_dump e) k = map_of (model_dump e') k"
    by (simp add: map_of_model_dump)
  from is_changed_cong [OF this]
  show "payload_changed (m\<lparr>existing := Some e\<rparr>) = payload_changed (m\<lparr>existing := Some e'\<rparr>)"
    by (simp add: payload_changed_def)
next
  fix xs ys
  assume "wf_val (PDict xs) \<and> distinct (map fst ys) \<and> set ys = set xs"
  then show "py_eq (PDict xs) (PDict ys)"
    by (intro py_eq_reordered) simp_all
next
  fix ps cm cl e
  have pp: "payload_params ((init ps cm cl)\<lparr>existing := Some e\<rparr>) =
      [(k, v) \<leftarrow> ps. v \<noteq> PNone \<and> k \<notin> set exclude]"
    by (simp add: init_def Let_def)
  show "payload_changed ((init ps cm cl)\<lparr>existing := Some e\<rparr>) =
           (\<exists>(k, v) \<in> set ps. v \<noteq> PNone \<and> k \<notin> set exclude
              \<and> (case map_of (model_dump e) k of None \<Rightarrow> True | Some w \<Rightarrow> \<not> py_eq w v))"
    unfolding payload_changed_def is_changed_iff pp by auto
qed

theorem drift_decision_witness:
  "fst ` set (payload_params module_same) = {''comment''}
   \<and> map_of (key_fields key_old) ''comment'' =
       map_of (key_fields (key_old\<lparr>version := PInt 2\<rparr>)) ''comment''
   \<and> \<not> payload_changed (module_same\<lparr>existing := Some key_old\<rparr>)
   \<and> \<not> payload_changed (module_same\<lparr>existing := Some (key_old\<lparr>version := PInt 2\<rparr>)\<rparr>)
   \<and> payload_changed ((module_new False)\<lparr>existing := Some key_old\<rparr>)
   \<and> payload_params module_tags = [(''tags'', PDict [(''site'', PStr ''a''), (''owner'', PStr ''b'')])]
   \<and> tags key_tagged = PDict [(''owner'', PStr ''b''), (''site'', PStr ''a'')]
   \<and> \<not> payload_changed (module_tags\<lparr>existing := Some key_tagged\<rparr>)"
proof -
  let ?m = "module_same\<lparr>existing := Some key_old\<rparr>"
  have h: "\<forall>k \<in> fst ` set (payload_params ?m).
         map_of (key_fields key_old) k = map_of (key_fields (key_old\<lparr>version := PInt 2\<rparr>)) k"
    by (simp add: module_same_simps key_fields_def)
  note first = drift_decision [of ?m, THEN conjunct1]
  have third: "payload_changed (?m\<lparr>existing := Some key_old\<rparr>) =
      payload_changed (?m\<lparr>existing := Some (key_old\<lparr>version := PInt 2\<rparr>)\<rparr>)"
    using drift_decision [of ?m] h by blast
  have a: "\<not> payload_changed ?m"
    by (simp add: first module_same_simps dump_key_old_comment)
  with third have b: "\<not> payload_changed (module_same\<lparr>existing := Some (key_old\<lparr>version := PInt 2\<rparr>)\<rparr>)"
    by simp
  have c: "payload_changed ((module_new False)\<lparr>existing := Some key_old\<rparr>)"
    by (simp add: drift_decision [of "(module_new False)\<lparr>existing := Some key_old\<rparr>", THEN conjunct1]
        module_new_simps dump_key_old_comment)
  have d: "\<not> payload_changed (module_tags\<lparr>existing := Some key_tagged\<rparr>)"
    by (simp add: drift_decision [of "module_tags\<lparr>existing := Some key_tagged\<rparr>", THEN conjunct1]
        module_tags_simps dump_key_tagged_tags)
  have k: "fst ` set (payload_params module_same) = {''comment''}"
    by (simp add: module_same_simps)
  have e: "map_of (key_fields key_old) ''comment'' =
       map_of (key_fields (key_old\<lparr>version := PInt 2\<rparr>)) ''comment''"
    by (simp add: key_fields_def)
  have t: "tags key_tagged = PDict [(''owner'', PStr ''b''), (''site'', PStr ''a'')]"
    by (simp add: key_tagged_def)
  from k e a b c d t show ?thesis by (simp add: module_tags_simps)
qed

text \<open>
  C8. The payload parameters built by \<^verbatim>\<open>__init__\<close> are exactly the items of
  \<^verbatim>\<open>params\<close> whose value is not \<^verbatim>\<open>None\<close> and whose key is none of
  \<^verbatim>\<open>state\<close>, \<^verbatim>\<open>id\<close>, \<^verbatim>\<open>csp_url\<close>, \<^verbatim>\<open>api_key\<close>; the payload object is
  built from them, and \<^verbatim>\<open>run_command\<close> leaves both as they were built.
\<close>

theorem desired_payload:
  "set (payload_params (init ps cm cl)) =
     {(k, v). (k, v) \<in> set ps \<and> v \<noteq> PNone \<and> k \<notin> {''state'', ''id'', ''csp_url'', ''api_key''}}
   \<and> (distinct (map fst ps) \<longrightarrow>
        (\<forall>k. map_of (payload_params (init ps cm cl)) k =
           (if k \<in> {''state'', ''id'', ''csp_url'', ''api_key''} then None
            else case map_of ps k of None \<Rightarrow> None | Some v \<Rightarrow> if v = PNone then None else Some v)))
   \<and> payload (init ps cm cl) = from_dict (payload_params (init ps cm cl))
   \<and> payload_params (snd (run_command (init ps cm cl))) = payload_params (init ps cm cl)
   \<and> payload (snd (run_command (init ps cm cl))) = payload (init ps cm cl)"
proof -
  have pp: "payload_params (init ps cm cl) = [(k, v) \<leftarrow> ps. v \<noteq> PNone \<and> k \<notin> set exclude]"
    by (simp add: init_def Let_def)
  have ex: "set exclude = {''state'', ''id'', ''csp_url'', ''api_key''}"
    by (auto simp: exclude_def)
  have 1: "set (payload_params (init ps cm cl)) =
     {(k, v). (k, v) \<in> set ps \<and> v \<noteq> PNone \<and> k \<notin> {''state'', ''id'', ''csp_url'', ''api_key''}}"
    unfolding pp ex [symmetric] by auto
  have 2: "map_of (payload_params (init ps cm cl)) k =
           (if k \<in> {''state'', ''id'', ''csp_url'', ''api_key''} then None
            else case map_of ps k of None \<Rightarrow> None | Some v \<Rightarrow> if v = PNone then None else Some v)"
    if "distinct (map fst ps)" for k
    unfolding pp ex [symmetric] by (rule map_of_payload_params [OF that])
  have 3: "payload (init ps cm cl) = from_dict (payload_params (init ps cm cl))"
    by (simp add: init_def Let_def)
  from run_command_frame [of "init ps cm cl"] obtain cs ex
    where "snd (run_command (init ps cm cl)) = add_calls cs ((init ps cm cl)\<lparr>existing := ex\<rparr>)"
    by blast
  then have 4: "payload_params (snd (run_command (init ps cm cl))) = payload_params (init ps cm cl)"
    and 5: "payload (snd (run_command (init ps cm cl))) = payload (init ps cm cl)"
    by simp_all
  from 1 2 3 4 5 show ?thesis by blast
qed

theorem desired_payload_witness:
  "distinct (map fst (load_params task_new))
   \<and> payload_params (init (load_params task_new) False (remote key_old)) = [(''comment'', PStr ''new'')]
   \<and> map_of (payload_params (init (load_params task_new) False (remote key_old))) ''tags'' = None
   \<and> map_of (payload_params (init (load_params task_new) False (remote key_old))) ''id'' = None
   \<and> payload_params (snd (run_command (init (load_params task_new) False (remote key_old)))) =
       [(''comment'', PStr ''new'')]"
proof -
  have h: "distinct (map fst (load_params task_new))"
    by (simp add: load_params_task_new)
  have pp: "payload_params (init (load_params task_new) False (remote key_old)) =
      [(''comment'', PStr ''new'')]"
    using module_new_simps(4) [of False] by (simp add: module_new_def)
  note inst = desired_payload [of "load_params task_new" False "remote key_old"]
  note second = inst [THEN conjunct2, THEN conjunct1, rule_format, OF h]
  note fourth = inst [THEN conjunct2, THEN conjunct2, THEN conjunct2, THEN conjunct1]
  have t: "map_of (payload_params (init (load_params task_new) False (remote key_old))) ''tags'' = None"
    using second [of "''tags''"] by (simp add: load_params_task_new)
  have i: "map_of (payload_params (init (load_params task_new) False (remote key_old))) ''id'' = None"
    using second [of "''id''"] by simp
  from h pp t i fourth show ?thesis by simp
qed

text \<open>
  C9. The claim that \<^verbatim>\<open>msg\<close> is populated on every success path fails on a no-op:
  the declared comment equals the existing one, the run outside check mode succeeds, and
  its result has no key \<^verbatim>\<open>msg\<close>.
\<close>

theorem no_msg_on_noop:
  "\<not> check_mode module_same
   \<and> fst (run_command module_same) =
       Exit_json (full_result False None (key_id key_old) (model_dump key_old) [])
   \<and> map_of (full_result False None (key_id key_old) (model_dump key_old) []) ''msg'' = None"
  by (simp add: run_module_same module_same_simps full_result_def)

text \<open>
  C9, as amended. Every successful run outside check mode yields \<^verbatim>\<open>changed\<close>,
  \<^verbatim>\<open>object\<close>, \<^verbatim>\<open>id\<close> and \<^verbatim>\<open>diff\<close> with its \<^verbatim>\<open>before\<close> and
  \<^verbatim>\<open>after\<close> (\<^verbatim>\<open>after\<close> being the object); \<^verbatim>\<open>msg\<close> is present exactly when
  \<^verbatim>\<open>changed\<close> is true, so the no-op outcomes carry no \<^verbatim>\<open>msg\<close>.
\<close>

theorem result_surface:
  assumes "fst (run_command m) = Exit_json res" and "\<not> check_mode m"
  shows "\<exists>ch i before after.
      map_of res ''changed'' = Some (PBool ch)
    \<and> map_of res ''object'' = Some (PDict after)
    \<and> map_of res ''id'' = Some i
    \<and> map_of res ''diff'' = Some (PDict [(''before'', PDict before), (''after'', PDict after)])
    \<and> (map_of res ''msg'' \<noteq> None \<longleftrightarrow> ch)"
proof -
  from exit_after_find [OF assms(1)] obtain ex m1 st
    where f: "find m = (Inr ex, m1)" and s: "map_of (params m) ''state'' = Some st"
    by blast
  from exit_shape [OF f s assms(1)] assms(2) obtain i before after
    where res: "res = full_result (planned st ex m \<noteq> No_op) (action_msg (planned st ex m))
      i before after"
    by auto
  have "map_of res ''changed'' = Some (PBool (planned st ex m \<noteq> No_op))"
    and "map_of res ''object'' = Some (PDict after)"
    and "map_of res ''id'' = Some i"
    and "map_of res ''diff'' = Some (PDict [(''before'', PDict before), (''after'', PDict after)])"
    and "map_of res ''msg'' \<noteq> None \<longleftrightarrow> planned st ex m \<noteq> No_op"
    by (cases "planned st ex m"; simp add: res full_result_def action_msg_def)+
  then show ?thesis by blast
qed

theorem result_surface_witness:
  "fst (run_command module_same) =
     Exit_json (full_result False None (key_id key_old) (model_dump key_old) [])
   \<and> \<not> check_mode module_same
   \<and> (\<exists>ch i before after.
        map_of (full_result False None (key_id key_old) (model_dump key_old) []) ''diff'' =
          Some (PDict [(''before'', PDict before), (''after'', PDict after)])
      \<and> map_of (full_result False None (key_id key_old) (model_dump key_old) []) ''id'' = Some i)"
proof -
  have h1: "fst (run_command module_same) =
     Exit_json (full_result False None (key_id key_old) (model_dump key_old) [])"
    by (simp add: run_module_same)
  have h2: "\<not> check_mode module_same"
    by (simp add: module_same_simps)
  from result_surface [OF h1 h2] h1 h2 show ?thesis
    by blast
qed

text \<open>
  C10. The result of every successful invocation starts with the keys \<^verbatim>\<open>changed\<close>,
  \<^verbatim>\<open>object\<close> and \<^verbatim>\<open>id\<close> of the initial dictionary; in check mode
  \<^verbatim>\<open>object\<close> and \<^verbatim>\<open>id\<close> still hold the initial empty mapping and
  \<^verbatim>\<open>None\<close>, and there is no \<^verbatim>\<open>diff\<close>.
\<close>

theorem result_keys:
  assumes "fst (run_command m) = Exit_json res"
  shows "take 3 (map fst res) = [''changed'', ''object'', ''id'']
    \<and> (\<exists>ch obj i. map_of res ''changed'' = Some (PBool ch) \<and> map_of res ''object'' = Some (PDict obj)
          \<and> map_of res ''id'' = Some i)
    \<and> (check_mode m \<longrightarrow>
          map_of res ''object'' = Some (PDict []) \<and> map_of res ''id'' = Some PNone
          \<and> map_of res ''diff'' = None)"
proof -
  from exit_after_find [OF assms(1)] obtain ex m1 st
    where f: "find m = (Inr ex, m1)" and s: "map_of (params m) ''state'' = Some st"
    by blast
  note shape = exit_shape [OF f s assms(1)]
  show ?thesis
  proof (cases "check_mode m")
    case True
    with shape show ?thesis
      by (auto split: option.splits)
  next
    case False
    with shape show ?thesis
      by (auto simp: full_result_def split: option.splits)
  qed
qed

theorem result_keys_witness:
  "fst (run_command (module_new True)) =
     Exit_json [(''changed'', PBool True), (''object'', PDict []), (''id'', PNone),
                (''msg'', PStr ''Kerberos updated'')]
   \<and> check_mode (module_new True)
   \<and> map_of [(''changed'', PBool True), (''object'', PDict []), (''id'', PNone),
              (''msg'', PStr ''Kerberos updated'')] ''object'' = Some (PDict [])"
proof -
  have s: "map_of (params (module_new True)) ''state'' = Some (PStr ''present'')"
    by (simp add: module_new_simps load_params_task_new)
  have p: "planned (PStr ''present'') (Some key_old) (module_new True) = Update"
    by (simp add: planned_def payload_changed_def is_changed_def model_dump_def key_fields_def
        module_new_simps key_old_def)
  have h: "fst (run_command (module_new True)) =
     Exit_json [(''changed'', PBool True), (''object'', PDict []), (''id'', PNone),
                (''msg'', PStr ''Kerberos updated'')]"
    by (simp add: run_after_find [OF find_module_new s] p module_new_simps changed_result_def)
  from result_keys [OF h] h show ?thesis
    by (simp add: module_new_simps)
qed

end
